theory Spec2Isabelle
  imports Complex_Main "HOL-Library.Multiset" "HOL-Library.Char_ord" "HOL-Library.List_Lexorder"
begin

section \<open>Prompt lifecycle manager: the prompt library and its operations\<close>

text \<open>
  The development embeds the Python module of the prompt lifecycle manager
  (\<^verbatim>\<open>_domain_key\<close>, \<^verbatim>\<open>_load_library\<close>, \<^verbatim>\<open>_save_library\<close>, \<^verbatim>\<open>get_prompt\<close>,
  \<^verbatim>\<open>save_draft\<close>, \<^verbatim>\<open>curate_prompt\<close>, \<^verbatim>\<open>log_run\<close>, \<^verbatim>\<open>rollback\<close>, \<^verbatim>\<open>delete_prompt\<close>).

  Conventions of the embedding:
  \<^item> a Python \<^verbatim>\<open>str\<close> is a \<^typ>\<open>string\<close> whose characters are the code points below 256;
  \<^item> a Python \<^verbatim>\<open>int\<close> is an \<^typ>\<open>int\<close>; a Python \<^verbatim>\<open>float\<close> is idealised as a \<^typ>\<open>real\<close>
    (exact arithmetic, no rounding);
  \<^item> the JSON file at \<^verbatim>\<open>LIBRARY_PATH\<close> is a \<^verbatim>\<open>library option\<close>: \<open>None\<close> when the file does
    not exist, \<open>Some lib\<close> when it holds the document \<open>lib\<close>; every operation takes the file
    and returns it, updated where the source calls \<^verbatim>\<open>_save_library\<close>;
  \<^item> \<^verbatim>\<open>datetime.now().isoformat()\<close> is read from a parameter \<open>now\<close>: \<open>now 0\<close> is the reading
    inside \<^verbatim>\<open>_load_library\<close>, and \<open>now i\<close> for \<open>i \<ge> 1\<close> is the reading at the \<open>i\<close>-th call
    site of the operation itself, in textual order;
  \<^item> \<^verbatim>\<open>hashlib.md5(s.encode()).hexdigest()\<close> is a library function and enters as the
    parameter \<open>md5\<close>;
  \<^item> a \<^verbatim>\<open>ValueError\<close> is a value of the type \<open>error\<close>, one constructor per message.
\<close>

subsection \<open>Key derivation\<close>

text \<open>\<^verbatim>\<open>str.isspace\<close> on the code points below 256: the characters \<^verbatim>\<open>str.strip()\<close> removes.\<close>

definition isspace :: "char \<Rightarrow> bool" where
  "isspace c =
     (let n = (of_char c :: nat)
      in (9 \<le> n \<and> n \<le> 13) \<or> (28 \<le> n \<and> n \<le> 32) \<or> n = 133 \<or> n = 160)"

definition strip :: "string \<Rightarrow> string" where
  "strip s = rev (dropWhile isspace (rev (dropWhile isspace s)))"

text \<open>\<^verbatim>\<open>str.lower\<close> on the code points below 256: the ASCII capitals and the Latin-1
  capitals (all of U+00C0 .. U+00DE but the multiplication sign) move up by 32.\<close>

definition lower_char :: "char \<Rightarrow> char" where
  "lower_char c =
     (let n = (of_char c :: nat)
      in if (65 \<le> n \<and> n \<le> 90) \<or> (192 \<le> n \<and> n \<le> 222 \<and> n \<noteq> 215)
         then char_of (n + 32) else c)"

definition lower :: "string \<Rightarrow> string" where
  "lower s = map lower_char s"

text \<open>\<^verbatim>\<open>s.replace(" ", "_")\<close>: every space becomes an underscore.\<close>

definition replace_space :: "string \<Rightarrow> string" where
  "replace_space s = map (\<lambda>c. if c = CHR '' '' then CHR ''_'' else c) s"

definition normalize_tag :: "string \<Rightarrow> string" where
  "normalize_tag d = replace_space (lower (strip d))"

text \<open>\<^verbatim>\<open>sep.join(xs)\<close>.\<close>

fun join :: "string \<Rightarrow> string list \<Rightarrow> string" where
  "join sep [] = []"
| "join sep [x] = x"
| "join sep (x # y # ys) = x @ sep @ join sep (y # ys)"

text \<open>\<^verbatim>\<open>_domain_key\<close>: the first 12 characters of the digest of the sorted, normalized
  tags joined by a bar. \<^verbatim>\<open>sorted\<close> on strings orders them lexicographically by code
  point, which is the order of \<^typ>\<open>string\<close> here.\<close>

definition domain_key :: "(string \<Rightarrow> string) \<Rightarrow> string list \<Rightarrow> string" where
  "domain_key md5 domains =
     (let normalized = sort (map normalize_tag domains)
      in take 12 (md5 (join ''|'' normalized)))"

subsection \<open>Data model\<close>

type_synonym timestamp = string

text \<open>An archived version in \<^verbatim>\<open>history\<close>: the keys \<^verbatim>\<open>version\<close>, \<^verbatim>\<open>system_prompt\<close>,
  \<^verbatim>\<open>status\<close> and \<^verbatim>\<open>saved_at\<close>.\<close>

record snapshot =
  h_version :: int
  h_system_prompt :: string
  h_status :: string
  h_saved_at :: timestamp

text \<open>The \<^verbatim>\<open>performance\<close> dictionary. \<^verbatim>\<open>last_regime\<close> is read with \<^verbatim>\<open>.get\<close> only, so a
  missing key and the value \<^verbatim>\<open>None\<close> are both \<open>None\<close>.\<close>

record perf =
  runs :: int
  avg_confidence :: real
  regime_changes :: int
  conflicts_detected :: int
  last_run :: "timestamp option"
  last_regime :: "string option"

text \<open>A prompt entry, with every key \<^verbatim>\<open>save_draft\<close> writes.\<close>

record entry =
  key :: string
  status :: string
  system_prompt :: string
  version :: int
  domains :: "string list"
  user_intent :: string
  generated_by :: string
  created_at :: timestamp
  updated_at :: timestamp
  curated_at :: "timestamp option"
  curated_by :: "string option"
  performance :: perf
  human_notes :: string
  history :: "snapshot list"

text \<open>The library document: \<^verbatim>\<open>{"prompts": {...}, "metadata": {"created": ...}}\<close>.\<close>

record library =
  prompts :: "string \<rightharpoonup> entry"
  metadata_created :: timestamp

text \<open>The two \<^verbatim>\<open>ValueError\<close>s of the module: \<^verbatim>\<open>No prompt found for domains: ...\<close> and
  \<^verbatim>\<open>Version ... not found in history\<close>.\<close>

datatype error = NotFound "string list" | VersionNotFound int

subsection \<open>Store\<close>

definition load_library :: "timestamp \<Rightarrow> library option \<Rightarrow> library" where
  "load_library t disk =
     (case disk of
        Some lib \<Rightarrow> lib
      | None \<Rightarrow> \<lparr>prompts = Map.empty, metadata_created = t\<rparr>)"

definition save_library :: "library \<Rightarrow> library option" where
  "save_library lib = Some lib"

text \<open>The slice \<^verbatim>\<open>xs[-10:]\<close>: the last ten elements, all of them when there are fewer.\<close>

definition last10 :: "'a list \<Rightarrow> 'a list" where
  "last10 xs = drop (length xs - 10) xs"

subsection \<open>Public operations\<close>

definition get_prompt :: "(string \<Rightarrow> string) \<Rightarrow> (nat \<Rightarrow> timestamp) \<Rightarrow> library option \<Rightarrow>
    string list \<Rightarrow> entry option" where
  "get_prompt md5 now disk doms =
     (let lib = load_library (now 0) disk;
          k = domain_key md5 doms
      in prompts lib k)"

definition archive :: "entry \<Rightarrow> timestamp \<Rightarrow> snapshot" where
  "archive e t =
     \<lparr>h_version = version e, h_system_prompt = system_prompt e,
      h_status = status e, h_saved_at = t\<rparr>"

definition default_performance :: perf where
  "default_performance =
     \<lparr>runs = 0, avg_confidence = 0, regime_changes = 0, conflicts_detected = 0,
      last_run = None, last_regime = None\<rparr>"

definition save_draft :: "(string \<Rightarrow> string) \<Rightarrow> (nat \<Rightarrow> timestamp) \<Rightarrow> library option \<Rightarrow>
    string list \<Rightarrow> string \<Rightarrow> string \<Rightarrow> string \<Rightarrow> entry \<times> library option" where
  "save_draft md5 now disk doms sp intent gen_by =
     (let lib = load_library (now 0) disk;
          k = domain_key md5 doms;
          existing = prompts lib k
      in case (case existing of
                 Some ex \<Rightarrow> if status ex = ''curated'' then Some ex else None
               | None \<Rightarrow> None) of
           Some ex \<Rightarrow> (ex, disk)
         | None \<Rightarrow>
           (let ver = (case existing of Some ex \<Rightarrow> version ex + 1 | None \<Rightarrow> 1);
                hist0 = (case existing of Some ex \<Rightarrow> history ex | None \<Rightarrow> []);
                hist = (case existing of
                          Some ex \<Rightarrow> last10 (hist0 @ [archive ex (now 1)])
                        | None \<Rightarrow> hist0);
                e = \<lparr>key = k,
                     status = ''draft'',
                     system_prompt = sp,
                     version = ver,
                     domains = sort doms,
                     user_intent = intent,
                     generated_by = gen_by,
                     created_at = (case existing of Some ex \<Rightarrow> created_at ex | None \<Rightarrow> now 2),
                     updated_at = now 3,
                     curated_at = None,
                     curated_by = None,
                     performance = (case existing of Some ex \<Rightarrow> performance ex
                                    | None \<Rightarrow> default_performance),
                     human_notes = (case existing of Some ex \<Rightarrow> human_notes ex | None \<Rightarrow> []),
                     history = hist\<rparr>
            in (e, save_library (lib\<lparr>prompts := (prompts lib)(k \<mapsto> e)\<rparr>))))"

text \<open>\<^verbatim>\<open>edited_prompt\<close> is \<^verbatim>\<open>Optional[str]\<close> and is tested for truth: \<^verbatim>\<open>None\<close> and the
  empty string both leave the text alone. \<^verbatim>\<open>notes\<close> is tested the same way.\<close>

definition curate_prompt :: "(string \<Rightarrow> string) \<Rightarrow> (nat \<Rightarrow> timestamp) \<Rightarrow> library option \<Rightarrow>
    string list \<Rightarrow> string option \<Rightarrow> string \<Rightarrow> string \<Rightarrow> (error + entry) \<times> library option" where
  "curate_prompt md5 now disk doms edited_prompt curator notes =
     (let lib = load_library (now 0) disk;
          k = domain_key md5 doms
      in case prompts lib k of
           None \<Rightarrow> (Inl (NotFound doms), disk)
         | Some e0 \<Rightarrow>
             (let e1 = e0\<lparr>history := last10 (history e0 @ [archive e0 (now 1)])\<rparr>;
                  e2 = (case edited_prompt of
                          Some t \<Rightarrow> if t \<noteq> [] then e1\<lparr>system_prompt := t\<rparr> else e1
                        | None \<Rightarrow> e1);
                  e3 = e2\<lparr>status := ''curated'',
                          version := version e2 + 1,
                          curated_at := Some (now 2),
                          curated_by := Some curator,
                          updated_at := now 3,
                          human_notes := (if notes \<noteq> [] then notes else human_notes e2)\<rparr>
              in (Inr e3, save_library (lib\<lparr>prompts := (prompts lib)(k \<mapsto> e3)\<rparr>))))"

text \<open>\<^verbatim>\<open>log_run\<close> returns nothing; the model returns the file. \<^verbatim>\<open>conflicts\<close> is a list
  tested for truth, and \<^verbatim>\<open>perf.get("last_regime")\<close> is tested for truth before it is
  compared.\<close>

definition log_run :: "(string \<Rightarrow> string) \<Rightarrow> (nat \<Rightarrow> timestamp) \<Rightarrow> library option \<Rightarrow>
    string list \<Rightarrow> real \<Rightarrow> string \<Rightarrow> 'c list \<Rightarrow> library option" where
  "log_run md5 now disk doms confidence regime conflicts =
     (let lib = load_library (now 0) disk;
          k = domain_key md5 doms
      in case prompts lib k of
           None \<Rightarrow> disk
         | Some e0 \<Rightarrow>
             (let p0 = performance e0;
                  p1 = p0\<lparr>runs := runs p0 + 1\<rparr>;
                  n = runs p1;
                  p2 = p1\<lparr>avg_confidence :=
                            (avg_confidence p1 * real_of_int (n - 1) + confidence) / real_of_int n\<rparr>;
                  p3 = (if (case last_regime p2 of Some r \<Rightarrow> r \<noteq> [] \<and> r \<noteq> regime | None \<Rightarrow> False)
                        then p2\<lparr>regime_changes := regime_changes p2 + 1\<rparr> else p2);
                  p4 = p3\<lparr>last_regime := Some regime\<rparr>;
                  p5 = (if conflicts \<noteq> []
                        then p4\<lparr>conflicts_detected := conflicts_detected p4 + 1\<rparr> else p4);
                  p6 = p5\<lparr>last_run := Some (now 1)\<rparr>;
                  e1 = (if status e0 = ''draft'' \<and> runs p6 \<ge> 20 \<and> avg_confidence p6 > 0.6
                        then e0\<lparr>status := ''evolving''\<rparr> else e0);
                  e2 = e1\<lparr>performance := p6\<rparr>
              in save_library (lib\<lparr>prompts := (prompts lib)(k \<mapsto> e2)\<rparr>)))"

text \<open>The search loop of \<^verbatim>\<open>rollback\<close> stops at the first snapshot of the wanted version:
  it is \<^const>\<open>find\<close>. The archived snapshot is appended with no slice. Every snapshot
  carries a status, so the default of \<^verbatim>\<open>target.get("status", "draft")\<close> is never taken.\<close>

definition rollback :: "(string \<Rightarrow> string) \<Rightarrow> (nat \<Rightarrow> timestamp) \<Rightarrow> library option \<Rightarrow>
    string list \<Rightarrow> int \<Rightarrow> (error + entry) \<times> library option" where
  "rollback md5 now disk doms to_version =
     (let lib = load_library (now 0) disk;
          k = domain_key md5 doms
      in case prompts lib k of
           None \<Rightarrow> (Inl (NotFound doms), disk)
         | Some e0 \<Rightarrow>
             (case find (\<lambda>h. h_version h = to_version) (history e0) of
                None \<Rightarrow> (Inl (VersionNotFound to_version), disk)
              | Some target \<Rightarrow>
                  (let e1 = e0\<lparr>history := history e0 @ [archive e0 (now 1)]\<rparr>;
                       e2 = e1\<lparr>system_prompt := h_system_prompt target\<rparr>;
                       e3 = e2\<lparr>version := version e2 + 1\<rparr>;
                       e4 = e3\<lparr>status := h_status target\<rparr>;
                       e5 = e4\<lparr>updated_at := now 2\<rparr>
                   in (Inr e5, save_library (lib\<lparr>prompts := (prompts lib)(k \<mapsto> e5)\<rparr>)))))"

definition delete_prompt :: "(string \<Rightarrow> string) \<Rightarrow> (nat \<Rightarrow> timestamp) \<Rightarrow> library option \<Rightarrow>
    string list \<Rightarrow> bool \<times> library option" where
  "delete_prompt md5 now disk doms =
     (let lib = load_library (now 0) disk;
          k = domain_key md5 doms
      in if prompts lib k \<noteq> None
         then (True, save_library (lib\<lparr>prompts := (prompts lib)(k := None)\<rparr>))
         else (False, disk))"

subsection \<open>Sequences of operations\<close>

text \<open>A call of one of the mutating operations, with its arguments and the clock
  readings it sees; \<open>run_ops\<close> performs the calls one after the other on the file,
  going on after a call that raised as a caller that catches the error would.\<close>

datatype 'c call =
    SaveDraft "nat \<Rightarrow> timestamp" "string list" string string string
  | Curate "nat \<Rightarrow> timestamp" "string list" "string option" string string
  | LogRun "nat \<Rightarrow> timestamp" "string list" real string "'c list"
  | Rollback "nat \<Rightarrow> timestamp" "string list" int
  | Delete "nat \<Rightarrow> timestamp" "string list"

fun run_call :: "(string \<Rightarrow> string) \<Rightarrow> library option \<Rightarrow> 'c call \<Rightarrow> library option" where
  "run_call md5 disk (SaveDraft now doms sp intent gen_by) =
     snd (save_draft md5 now disk doms sp intent gen_by)"
| "run_call md5 disk (Curate now doms edited curator notes) =
     snd (curate_prompt md5 now disk doms edited curator notes)"
| "run_call md5 disk (LogRun now doms confidence regime conflicts) =
     log_run md5 now disk doms confidence regime conflicts"
| "run_call md5 disk (Rollback now doms to_version) =
     snd (rollback md5 now disk doms to_version)"
| "run_call md5 disk (Delete now doms) =
     snd (delete_prompt md5 now disk doms)"

definition run_ops :: "(string \<Rightarrow> string) \<Rightarrow> 'c call list \<Rightarrow> library option \<Rightarrow> library option" where
  "run_ops md5 cs disk = foldl (run_call md5) disk cs"

subsection \<open>Well-formed histories\<close>

text \<open>The versions archived in a history increase strictly and lie below the version
  of the entry; \<open>disk_ok\<close> says so of every entry of the file.\<close>

definition history_ok :: "entry \<Rightarrow> bool" where
  "history_ok e =
     (sorted_wrt (<) (map h_version (history e))
      \<and> list_all (\<lambda>s. h_version s < version e) (history e))"

definition disk_ok :: "library option \<Rightarrow> bool" where
  "disk_ok disk = (\<forall>lib k e. disk = Some lib \<longrightarrow> prompts lib k = Some e \<longrightarrow> history_ok e)"

subsection \<open>Sample data\<close>

text \<open>Concrete inputs for the examples below. The digest is a parameter of every
  theorem; the examples take the identity for it, so that the key of a tag list is the
  first 12 characters of its joined normalized tags. The clock always reads the same
  instant.\<close>

definition sample_md5 :: "string \<Rightarrow> string" where
  "sample_md5 s = s"

definition sample_now :: "nat \<Rightarrow> timestamp" where
  "sample_now i = ''2026-02-24T10:00:00''"

definition sample_domains :: "string list" where
  "sample_domains = [''Housing'', ''inflation'']"

text \<open>Two drafts and a curation, on an absent file.\<close>

definition sample_calls :: "string call list" where
  "sample_calls =
     [SaveDraft sample_now sample_domains ''v1'' ''monitor housing'' ''auto'',
      SaveDraft sample_now sample_domains ''v2'' ''monitor housing'' ''auto'',
      Curate sample_now sample_domains (Some ''v2-final'') ''human'' ''reviewed'']"

definition sample_disk :: "library option" where
  "sample_disk = run_ops sample_md5 sample_calls None"



text \<open>The first archived version of the sample file.\<close>

definition sample_snapshot :: snapshot where
  "sample_snapshot =
     \<lparr>h_version = 1, h_system_prompt = ''v1'', h_status = ''draft'',
      h_saved_at = ''2026-02-24T10:00:00''\<rparr>"


text \<open>Eleven drafts on one key.\<close>

definition sample_eleven_drafts :: "string call list" where
  "sample_eleven_drafts =
     replicate 11 (SaveDraft sample_now sample_domains ''v'' ''monitor housing'' ''auto'')"

section \<open>Properties\<close>

subsection \<open>Key derivation\<close>




subsection \<open>Draft saves\<close>

text \<open>
  Claim C1. When the entry of a key is curated, \<^verbatim>\<open>save_draft\<close> on that key is a no-op:
  it returns the existing entry as it is (text, version, status and every other field)
  and does not write the file.
\<close>

theorem save_draft_curated_noop:
  assumes "get_prompt md5 now0 disk doms = Some e" and "status e = ''curated''"
  shows "save_draft md5 now disk doms sp intent gen_by = (e, disk)"
  using assms by (cases disk) (simp_all add: get_prompt_def save_draft_def load_library_def)

theorem save_draft_curated_noop_witness:
  "\<exists>e. get_prompt sample_md5 sample_now sample_disk sample_domains = Some e
     \<and> status e = ''curated''
     \<and> save_draft sample_md5 sample_now sample_disk sample_domains ''v3'' ''other'' ''auto''
         = (e, sample_disk)"
proof -
  have "map_option status (get_prompt sample_md5 sample_now sample_disk sample_domains)
          = Some ''curated''"
    by code_simp
  then obtain e where h1: "get_prompt sample_md5 sample_now sample_disk sample_domains = Some e"
    and h2: "status e = ''curated''"
    by auto
  show ?thesis using h1 h2 save_draft_curated_noop [OF h1 h2] by blast
qed


subsection \<open>Performance logging\<close>







subsection \<open>Curation\<close>

text \<open>
  Claim C10. On an existing entry, \<^verbatim>\<open>curate_prompt\<close> with the empty string as edited text
  does exactly what it does with no edited text: the same result and the same file; the
  status becomes \<^verbatim>\<open>curated\<close>, the version grows by one and the text of the entry is
  left as it was.
\<close>

theorem curate_empty_text_as_absent:
  assumes "get_prompt md5 now0 disk doms = Some e"
  shows "curate_prompt md5 now disk doms (Some []) curator notes
           = curate_prompt md5 now disk doms None curator notes
       \<and> (\<exists>e'. fst (curate_prompt md5 now disk doms (Some []) curator notes) = Inr e'
              \<and> get_prompt md5 now1
                   (snd (curate_prompt md5 now disk doms (Some []) curator notes)) doms = Some e'
              \<and> status e' = ''curated''
              \<and> version e' = version e + 1
              \<and> system_prompt e' = system_prompt e)"
  using assms
  by (cases disk)
     (simp_all add: get_prompt_def curate_prompt_def load_library_def save_library_def Let_def)

theorem curate_empty_text_as_absent_witness:
  "\<exists>e. get_prompt sample_md5 sample_now sample_disk sample_domains = Some e
     \<and> curate_prompt sample_md5 sample_now sample_disk sample_domains (Some []) ''human'' ''ok''
           = curate_prompt sample_md5 sample_now sample_disk sample_domains None ''human'' ''ok''
     \<and> (\<exists>e'. fst (curate_prompt sample_md5 sample_now sample_disk sample_domains (Some [])
                      ''human'' ''ok'') = Inr e'
              \<and> get_prompt sample_md5 sample_now
                   (snd (curate_prompt sample_md5 sample_now sample_disk sample_domains (Some [])
                      ''human'' ''ok'')) sample_domains = Some e'
              \<and> status e' = ''curated''
              \<and> version e' = version e + 1
              \<and> system_prompt e' = system_prompt e)"
proof -
  have "map_option version (get_prompt sample_md5 sample_now sample_disk sample_domains) = Some 3"
    by code_simp
  then obtain e where h1: "get_prompt sample_md5 sample_now sample_disk sample_domains = Some e"
    by auto
  show ?thesis
    using h1 curate_empty_text_as_absent [OF h1, of sample_now "''human''" "''ok''" sample_now]
    by blast
qed

subsection \<open>Histories of the files reached from an absent file\<close>

lemma find_distinct_key:
  assumes "distinct (map f xs)" and "x \<in> set xs"
  shows "find (\<lambda>y. f y = f x) xs = Some x"
  using assms by (induction xs) (auto simp: image_iff)

lemma history_ok_next:
  assumes "history_ok e" and "version e' = version e + 1"
    and "history e' = drop n (history e @ [archive e t])"
  shows "history_ok e'"
proof -
  have srt: "sorted_wrt (<) (map h_version (history e))"
    and low: "\<forall>s \<in> set (history e). h_version s < version e"
    using assms(1) by (simp_all add: history_ok_def list_all_iff)
  have full_sorted: "sorted_wrt (<) (map h_version (history e @ [archive e t]))"
    using srt low by (simp add: sorted_wrt_append archive_def)
  have full_low: "\<forall>s \<in> set (history e @ [archive e t]). h_version s < version e + 1"
    using low by (auto simp: archive_def)
  have "sorted_wrt (<) (drop n (map h_version (history e @ [archive e t])))"
    using full_sorted by (rule sorted_wrt_drop)
  then have A: "sorted_wrt (<) (map h_version (history e'))"
    by (simp only: assms(3) drop_map)
  have B: "\<forall>s \<in> set (history e'). h_version s < version e'"
    using full_low set_drop_subset [of n "history e @ [archive e t]"]
    unfolding assms(2) assms(3) by blast
  show ?thesis using A B by (simp add: history_ok_def list_all_iff)
qed

lemma history_ok_same:
  assumes "history_ok e" and "version e' = version e" and "history e' = history e"
  shows "history_ok e'"
  using assms by (simp add: history_ok_def)

lemma disk_ok_None: "disk_ok None"
  by (simp add: disk_ok_def)

lemma disk_ok_load:
  assumes "disk_ok disk" and "prompts (load_library t disk) k = Some e"
  shows "history_ok e"
  using assms by (cases disk) (auto simp: disk_ok_def load_library_def)

lemma disk_ok_store:
  assumes "disk_ok disk" and "history_ok e"
  shows "disk_ok (save_library ((load_library t disk)\<lparr>prompts := (prompts (load_library t disk))(k \<mapsto> e)\<rparr>))"
  using assms by (cases disk) (auto simp: disk_ok_def load_library_def save_library_def)

lemma save_draft_ok:
  assumes "disk_ok disk"
  shows "disk_ok (snd (save_draft md5 now disk doms sp intent gen_by))"
proof (cases "prompts (load_library (now 0) disk) (domain_key md5 doms)")
  case None
  have "history_ok \<lparr>key = k, status = st, system_prompt = sp, version = 1, domains = ds,
          user_intent = ui, generated_by = g, created_at = c, updated_at = u, curated_at = None,
          curated_by = None, performance = p, human_notes = hn, history = []\<rparr>"
    for k st ds ui g c u p hn
    by (simp add: history_ok_def)
  then show ?thesis using None disk_ok_store [OF assms]
    by (simp add: save_draft_def Let_def)
next
  case (Some ex)
  have ok: "history_ok ex" using disk_ok_load [OF assms Some] .
  show ?thesis
  proof (cases "status ex = ''curated''")
    case True
    then show ?thesis using Some assms by (simp add: save_draft_def Let_def)
  next
    case False
    have "history_ok \<lparr>key = k, status = st, system_prompt = sp, version = version ex + 1,
          domains = ds, user_intent = ui, generated_by = g, created_at = c, updated_at = u,
          curated_at = None, curated_by = None, performance = p, human_notes = hn,
          history = last10 (history ex @ [archive ex t])\<rparr>"
      for k st ds ui g c u p hn t
      unfolding last10_def
      by (rule history_ok_next
            [OF ok, where n = "length (history ex @ [archive ex t]) - 10" and t = t])
         simp_all
    then show ?thesis using Some False disk_ok_store [OF assms]
      by (simp add: save_draft_def Let_def)
  qed
qed

lemma curate_prompt_ok:
  assumes "disk_ok disk"
  shows "disk_ok (snd (curate_prompt md5 now disk doms edited curator notes))"
proof (cases "prompts (load_library (now 0) disk) (domain_key md5 doms)")
  case None
  then show ?thesis using assms by (simp add: curate_prompt_def)
next
  case (Some e0)
  have ok: "history_ok e0" using disk_ok_load [OF assms Some] .
  have "history_ok e'" if "version e' = version e0 + 1"
      and "history e' = last10 (history e0 @ [archive e0 (now 1)])" for e'
    using history_ok_next [OF ok that(1), of "length (history e0 @ [archive e0 (now 1)]) - 10" "now 1"] that(2)
    by (simp add: last10_def)
  then show ?thesis using Some disk_ok_store [OF assms]
    by (simp add: curate_prompt_def Let_def split: option.split)
qed

lemma log_run_ok:
  assumes "disk_ok disk"
  shows "disk_ok (log_run md5 now disk doms confidence regime conflicts)"
proof (cases "prompts (load_library (now 0) disk) (domain_key md5 doms)")
  case None
  then show ?thesis using assms by (simp add: log_run_def)
next
  case (Some e0)
  have ok: "history_ok e0" using disk_ok_load [OF assms Some] .
  have "history_ok e'" if "version e' = version e0" and "history e' = history e0" for e'
    using history_ok_same [OF ok that] .
  then show ?thesis using Some disk_ok_store [OF assms]
    by (simp add: log_run_def Let_def)
qed

lemma rollback_ok:
  assumes "disk_ok disk"
  shows "disk_ok (snd (rollback md5 now disk doms to_version))"
proof (cases "prompts (load_library (now 0) disk) (domain_key md5 doms)")
  case None
  then show ?thesis using assms by (simp add: rollback_def)
next
  case (Some e0)
  have ok: "history_ok e0" using disk_ok_load [OF assms Some] .
  have "history_ok e'" if "version e' = version e0 + 1"
      and "history e' = history e0 @ [archive e0 (now 1)]" for e'
    using history_ok_next [OF ok that(1), of 0 "now 1"] that(2) by simp
  then show ?thesis using Some assms disk_ok_store [OF assms]
    by (simp add: rollback_def Let_def split: option.split)
qed

lemma delete_prompt_ok:
  assumes "disk_ok disk"
  shows "disk_ok (snd (delete_prompt md5 now disk doms))"
  using assms
  by (cases disk)
     (auto simp: delete_prompt_def disk_ok_def load_library_def save_library_def Let_def
        split: if_splits)

lemma run_call_ok: "disk_ok disk \<Longrightarrow> disk_ok (run_call md5 disk c)"
  by (cases c)
     (simp_all add: save_draft_ok curate_prompt_ok log_run_ok rollback_ok delete_prompt_ok)

lemma run_ops_ok: "disk_ok disk \<Longrightarrow> disk_ok (run_ops md5 cs disk)"
  unfolding run_ops_def by (induction cs arbitrary: disk) (simp_all add: run_call_ok)

subsection \<open>Rollback\<close>

text \<open>
  Claim C6. In a file reached from an absent one by any calls of the operations, a
  rollback of an entry to the version of a snapshot \<open>s\<close> of its history succeeds; the
  entry it returns and stores has the text and the status of \<open>s\<close>, and its version is the
  version of before plus one: strictly greater than before, and not the version of \<open>s\<close>.
\<close>

theorem rollback_restores_snapshot:
  assumes "get_prompt md5 now0 (run_ops md5 cs None) doms = Some e"
    and "s \<in> set (history e)"
  shows "\<exists>e'. fst (rollback md5 now (run_ops md5 cs None) doms (h_version s)) = Inr e'
           \<and> get_prompt md5 now1
                (snd (rollback md5 now (run_ops md5 cs None) doms (h_version s))) doms = Some e'
           \<and> system_prompt e' = h_system_prompt s
           \<and> status e' = h_status s
           \<and> version e' = version e + 1
           \<and> version e < version e'
           \<and> version e' \<noteq> h_version s"
proof -
  obtain lib where disk: "run_ops md5 cs None = Some lib"
    and entry: "prompts lib (domain_key md5 doms) = Some e"
    using assms(1) by (cases "run_ops md5 cs None") (simp_all add: get_prompt_def load_library_def)
  have "disk_ok (run_ops md5 cs None)"
    by (rule run_ops_ok [OF disk_ok_None])
  then have ok: "history_ok e"
    using disk entry by (simp add: disk_ok_def)
  have "distinct (map h_version (history e))"
    using ok by (simp add: history_ok_def strict_sorted_iff)
  then have target: "find (\<lambda>h. h_version h = h_version s) (history e) = Some s"
    using assms(2) by (rule find_distinct_key)
  have below: "h_version s < version e"
    using ok assms(2) by (simp add: history_ok_def list_all_iff)
  show ?thesis
    using entry target below
    by (simp add: disk rollback_def get_prompt_def load_library_def save_library_def Let_def)
qed

theorem rollback_restores_snapshot_witness:
  "\<exists>e. get_prompt sample_md5 sample_now (run_ops sample_md5 sample_calls None) sample_domains
          = Some e
     \<and> sample_snapshot \<in> set (history e)
     \<and> (\<exists>e'. fst (rollback sample_md5 sample_now (run_ops sample_md5 sample_calls None)
                     sample_domains 1) = Inr e'
            \<and> system_prompt e' = ''v1''
            \<and> status e' = ''draft''
            \<and> version e' = 4
            \<and> version e < version e')"
proof -
  have "map_option (\<lambda>e. (version e, hd (history e), length (history e)))
          (get_prompt sample_md5 sample_now (run_ops sample_md5 sample_calls None) sample_domains)
          = Some (3, sample_snapshot, 2)"
    by code_simp
  then obtain e where
    h1: "get_prompt sample_md5 sample_now (run_ops sample_md5 sample_calls None) sample_domains
           = Some e"
    and v: "version e = 3" and hd: "hd (history e) = sample_snapshot"
    and len: "length (history e) = 2"
    by auto
  have "history e \<noteq> []" using len by auto
  then have h2: "sample_snapshot \<in> set (history e)" using hd hd_in_set by metis
  have s: "h_version sample_snapshot = 1" "h_system_prompt sample_snapshot = ''v1''"
    "h_status sample_snapshot = ''draft''"
    by (simp_all add: sample_snapshot_def)
  show ?thesis
    using h1 h2 v rollback_restores_snapshot [OF h1 h2, of sample_now sample_now]
    unfolding s by auto
qed

text \<open>
  Claim C7. A rollback of an existing entry to a version that no snapshot of its history
  has raises the error \<^verbatim>\<open>Version ... not found in history\<close> and writes nothing: the file,
  and with it the entry, is as before.
\<close>

theorem rollback_version_not_found:
  assumes "get_prompt md5 now0 disk doms = Some e"
    and "to_version \<notin> h_version ` set (history e)"
  shows "rollback md5 now disk doms to_version = (Inl (VersionNotFound to_version), disk)"
proof -
  have "find (\<lambda>h. h_version h = to_version) (history e) = None"
    using assms(2) by (auto simp: find_None_iff)
  then show ?thesis using assms(1)
    by (cases disk) (simp_all add: get_prompt_def rollback_def load_library_def)
qed

theorem rollback_version_not_found_witness:
  "\<exists>e. get_prompt sample_md5 sample_now sample_disk sample_domains = Some e
     \<and> 7 \<notin> h_version ` set (history e)
     \<and> rollback sample_md5 sample_now sample_disk sample_domains 7
         = (Inl (VersionNotFound 7), sample_disk)"
proof -
  have "map_option (\<lambda>e. map h_version (history e))
          (get_prompt sample_md5 sample_now sample_disk sample_domains) = Some [1, 2]"
    by code_simp
  then obtain e where h1: "get_prompt sample_md5 sample_now sample_disk sample_domains = Some e"
    and vs: "map h_version (history e) = [1, 2]"
    by auto
  have "h_version ` set (history e) = set (map h_version (history e))" by simp
  then have h2: "7 \<notin> h_version ` set (history e)" unfolding vs by simp
  show ?thesis using h1 h2 rollback_version_not_found [OF h1 h2] by blast
qed

subsection \<open>The cap of ten snapshots\<close>

text \<open>\<^verbatim>\<open>save_draft\<close> and \<^verbatim>\<open>curate_prompt\<close> slice the history to its last ten snapshots.\<close>

lemma length_last10: "length (last10 xs) \<le> 10"
  by (simp add: last10_def)

lemma save_draft_history_capped:
  assumes "get_prompt md5 now0 disk doms = Some e" and "status e \<noteq> ''curated''"
  shows "length (history (fst (save_draft md5 now disk doms sp intent gen_by))) \<le> 10"
  using assms length_last10 [of "history e @ [archive e (now 1)]"]
  by (cases disk) (simp_all add: get_prompt_def save_draft_def load_library_def Let_def)

lemma curate_prompt_history_capped:
  assumes "fst (curate_prompt md5 now disk doms edited curator notes) = Inr e'"
  shows "length (history e') \<le> 10"
proof (cases "prompts (load_library (now 0) disk) (domain_key md5 doms)")
  case None
  then show ?thesis using assms by (simp add: curate_prompt_def)
next
  case (Some e0)
  then show ?thesis using assms length_last10 [of "history e0 @ [archive e0 (now 1)]"]
    by (auto simp: curate_prompt_def Let_def split: option.splits if_splits)
qed

text \<open>
  Claim C2. The history of an entry is to hold at most ten snapshots after any sequence
  of operations. \<^verbatim>\<open>rollback\<close> appends the current version without slicing: after eleven
  drafts on one key the history holds ten snapshots, and after a rollback to the first
  of them it holds eleven.
\<close>

theorem rollback_history_exceeds_cap:
  "map_option (length \<circ> history)
     (get_prompt sample_md5 sample_now (run_ops sample_md5 sample_eleven_drafts None)
        sample_domains) = Some 10
   \<and> map_option (length \<circ> history)
       (get_prompt sample_md5 sample_now
          (snd (rollback sample_md5 sample_now (run_ops sample_md5 sample_eleven_drafts None)
                  sample_domains 1))
          sample_domains) = Some 11"
  by code_simp

subsection \<open>The curation fields\<close>





lemma curate_prompt_curated_fields:
  assumes "get_prompt md5 now0 disk doms = Some e"
  shows "\<exists>e'. get_prompt md5 now1
                 (snd (curate_prompt md5 now disk doms' edited curator notes)) doms = Some e'
           \<and> (if domain_key md5 doms' = domain_key md5 doms
               then curated_at e' = Some (now 2) \<and> curated_by e' = Some curator
               else curated_at e' = curated_at e \<and> curated_by e' = curated_by e)"
proof (cases "domain_key md5 doms' = domain_key md5 doms")
  case True
  then show ?thesis using assms
    by (cases disk)
       (simp_all add: get_prompt_def curate_prompt_def load_library_def save_library_def Let_def)
next
  case False
  then show ?thesis using assms
    by (cases disk)
       (simp_all add: get_prompt_def curate_prompt_def load_library_def save_library_def Let_def
          split: option.split)
qed



end
